theory Spec2Isabelle
  imports Complex_Main
begin

section \<open>Numbers, vectors and errors\<close>

text \<open>
  The solver computes on numpy \<open>float32\<close> arrays and Python floats. The embedding
  takes every number as a real: rounding, overflow, infinities and NaN are outside the
  model. A three-component numpy row is a triple of reals; an array of shape
  \<open>(n, 3)\<close> is a list of such rows, a one-dimensional array a list of reals.
\<close>

type_synonym vec3 = "real \<times> real \<times> real"

definition vzero :: vec3 where
  "vzero = (0, 0, 0)"

fun vadd :: "vec3 \<Rightarrow> vec3 \<Rightarrow> vec3" where
  "vadd (ax, ay, az) (bx, by, bz) = (ax + bx, ay + by, az + bz)"

fun vsub :: "vec3 \<Rightarrow> vec3 \<Rightarrow> vec3" where
  "vsub (ax, ay, az) (bx, by, bz) = (ax - bx, ay - by, az - bz)"

fun smul :: "real \<Rightarrow> vec3 \<Rightarrow> vec3" where
  "smul c (x, y, z) = (c * x, c * y, c * z)"

fun vnorm :: "vec3 \<Rightarrow> real" where
  "vnorm (x, y, z) = sqrt (x ^ 2 + y ^ 2 + z ^ 2)"

text \<open>
  Every raise of the source is a value. \<open>FloatingPointError\<close> is not raised by numpy
  in its default setting: a numpy division by zero yields an infinity or a NaN and a
  warning. Such a quotient is no real number, so the model stops there with this error;
  a pass that never returns it never divides by zero.
\<close>

datatype error =
    RuntimeError
  | ValueError
  | OverflowError
  | ZeroDivisionError
  | IndexError
  | FloatingPointError

definition ebind :: "error + 'a \<Rightarrow> ('a \<Rightarrow> error + 'b) \<Rightarrow> error + 'b" where
  "ebind m f = (case m of Inl e \<Rightarrow> Inl e | Inr x \<Rightarrow> f x)"

text \<open>A \<open>for\<close> loop over a list that threads a value and stops at the first raise.\<close>

fun for_each :: "('s \<Rightarrow> 'a \<Rightarrow> error + 's) \<Rightarrow> 'a list \<Rightarrow> 's \<Rightarrow> error + 's" where
  "for_each body [] s = Inr s"
| "for_each body (x # xs) s = ebind (body s x) (for_each body xs)"

text \<open>Division of two Python floats raises on a zero divisor.\<close>

definition py_div :: "real \<Rightarrow> real \<Rightarrow> error + real" where
  "py_div a b = (if b = 0 then Inl ZeroDivisionError else Inr (a / b))"

text \<open>Division of a numpy scalar or row by a scalar.\<close>

definition np_div :: "real \<Rightarrow> real \<Rightarrow> error + real" where
  "np_div a b = (if b = 0 then Inl FloatingPointError else Inr (a / b))"

fun vdivs :: "vec3 \<Rightarrow> real \<Rightarrow> vec3" where
  "vdivs (x, y, z) b = (x / b, y / b, z / b)"

definition np_vdiv :: "vec3 \<Rightarrow> real \<Rightarrow> error + vec3" where
  "np_vdiv v b = (if b = 0 then Inl FloatingPointError else Inr (vdivs v b))"

text \<open>Reading and writing a row of an array by a non-negative index.\<close>

definition item :: "'a list \<Rightarrow> nat \<Rightarrow> error + 'a" where
  "item xs i = (if i < length xs then Inr (xs ! i) else Inl IndexError)"

definition setitem :: "'a list \<Rightarrow> nat \<Rightarrow> 'a \<Rightarrow> error + 'a list" where
  "setitem xs i v = (if i < length xs then Inr (xs[i := v]) else Inl IndexError)"

section \<open>Kernels (kernel.py)\<close>

text \<open>
  \<open>poly6\<close> and \<open>viscosity_laplacian\<close> accept an array with at least one dimension
  or a scalar distance; the solver passes the row \<open>pos_i - pos_j\<close>.
\<close>

datatype kernel_arg = Vec vec3 | Scalar real

definition arg_norm :: "kernel_arg \<Rightarrow> real" where
  "arg_norm r = (case r of Vec v \<Rightarrow> vnorm v | Scalar x \<Rightarrow> \<bar>x\<bar>)"

definition poly6 :: "kernel_arg \<Rightarrow> real \<Rightarrow> error + real" where
  "poly6 r h =
     (let r_norm = arg_norm r in
      if r_norm > h then Inr 0
      else ebind (py_div 315 (64 * pi * h ^ 9))
             (\<lambda>coef. Inr (coef * (h ^ 2 - r_norm ^ 2) ^ 3)))"

definition spiky_gradient :: "vec3 \<Rightarrow> real \<Rightarrow> error + vec3" where
  "spiky_gradient r h =
     (let r_norm = vnorm r in
      if r_norm > h \<or> r_norm < 1 / 1000000 then Inr vzero
      else ebind (py_div (- 45) (pi * h ^ 6))
             (\<lambda>coef. np_vdiv (smul (coef * (h - r_norm) ^ 2) r) r_norm))"

definition viscosity_laplacian :: "kernel_arg \<Rightarrow> real \<Rightarrow> error + real" where
  "viscosity_laplacian r h =
     (let r_norm = arg_norm r in
      if r_norm > h then Inr 0
      else ebind (py_div 45 (pi * h ^ 6))
             (\<lambda>coef. Inr (coef * (h - r_norm))))"

section \<open>Particle store (particle.py)\<close>

text \<open>
  \<open>ParticleSystem\<close> keeps one numpy array per field, each allocated by the constructor
  with \<open>max_particles\<close> rows. \<open>np.zeros\<close> raises \<open>ValueError\<close> on a negative
  dimension.
\<close>

record ParticleSystem =
  max_particles :: int
  n_particles :: nat
  positions :: "vec3 list"
  velocities :: "vec3 list"
  forces :: "vec3 list"
  masses :: "real list"
  densities :: "real list"
  pressures :: "real list"
  colors :: "vec3 list"
  viscosities :: "real list"

definition ParticleSystem_init :: "int \<Rightarrow> error + ParticleSystem" where
  "ParticleSystem_init cap =
     (if cap < 0 then Inl ValueError
      else Inr \<lparr> max_particles = cap, n_particles = 0,
                 positions = replicate (nat cap) vzero,
                 velocities = replicate (nat cap) vzero,
                 forces = replicate (nat cap) vzero,
                 masses = replicate (nat cap) 0,
                 densities = replicate (nat cap) 0,
                 pressures = replicate (nat cap) 0,
                 colors = replicate (nat cap) vzero,
                 viscosities = replicate (nat cap) (1 * (1 / 1000)) \<rparr>)"

text \<open>
  \<open>add_particle\<close> returns what the call returns or raises, together with the store as
  the call leaves it. The capacity test comes before every write.
\<close>

definition add_particle ::
  "ParticleSystem \<Rightarrow> vec3 \<Rightarrow> vec3 \<Rightarrow> real \<Rightarrow> vec3 \<Rightarrow> real \<Rightarrow> (error + nat) \<times> ParticleSystem" where
  "add_particle ps position velocity mass color viscosity =
     (if max_particles ps \<le> int (n_particles ps) then (Inl RuntimeError, ps)
      else
        let idx = n_particles ps in
        case setitem (positions ps) idx position of Inl e \<Rightarrow> (Inl e, ps) | Inr a \<Rightarrow>
        let ps = ps\<lparr>positions := a\<rparr> in
        case setitem (velocities ps) idx velocity of Inl e \<Rightarrow> (Inl e, ps) | Inr a \<Rightarrow>
        let ps = ps\<lparr>velocities := a\<rparr> in
        case setitem (masses ps) idx mass of Inl e \<Rightarrow> (Inl e, ps) | Inr a \<Rightarrow>
        let ps = ps\<lparr>masses := a\<rparr> in
        case setitem (colors ps) idx color of Inl e \<Rightarrow> (Inl e, ps) | Inr a \<Rightarrow>
        let ps = ps\<lparr>colors := a\<rparr> in
        case setitem (viscosities ps) idx viscosity of Inl e \<Rightarrow> (Inl e, ps) | Inr a \<Rightarrow>
        let ps = ps\<lparr>viscosities := a\<rparr> in
        case setitem (densities ps) idx 0 of Inl e \<Rightarrow> (Inl e, ps) | Inr a \<Rightarrow>
        let ps = ps\<lparr>densities := a\<rparr> in
        case setitem (pressures ps) idx 0 of Inl e \<Rightarrow> (Inl e, ps) | Inr a \<Rightarrow>
        let ps = ps\<lparr>pressures := a\<rparr> in
        case setitem (forces ps) idx (0, 0, 0) of Inl e \<Rightarrow> (Inl e, ps) | Inr a \<Rightarrow>
        let ps = ps\<lparr>forces := a\<rparr> in
        (Inr idx, ps\<lparr>n_particles := n_particles ps + 1\<rparr>))"

text \<open>Every array of the store has the rows the constructor gave it.\<close>

definition arrays_ok :: "ParticleSystem \<Rightarrow> bool" where
  "arrays_ok ps \<longleftrightarrow>
     0 \<le> max_particles ps \<and>
     length (positions ps) = nat (max_particles ps) \<and>
     length (velocities ps) = nat (max_particles ps) \<and>
     length (forces ps) = nat (max_particles ps) \<and>
     length (masses ps) = nat (max_particles ps) \<and>
     length (densities ps) = nat (max_particles ps) \<and>
     length (pressures ps) = nat (max_particles ps) \<and>
     length (colors ps) = nat (max_particles ps) \<and>
     length (viscosities ps) = nat (max_particles ps)"

text \<open>
  A store as the constructor allocates it for capacity \<open>cap\<close>, with the live count set
  to \<open>n\<close>: the concrete stores the examples below run on.
\<close>

definition store_of :: "nat \<Rightarrow> nat \<Rightarrow> ParticleSystem" where
  "store_of cap n =
     \<lparr> max_particles = int cap, n_particles = n,
       positions = replicate cap vzero,
       velocities = replicate cap vzero,
       forces = replicate cap vzero,
       masses = replicate cap 0,
       densities = replicate cap 0,
       pressures = replicate cap 0,
       colors = replicate cap vzero,
       viscosities = replicate cap (1 * (1 / 1000)) \<rparr>"

section \<open>Uniform grid (spatial_hash.py)\<close>

text \<open>
  The grid is a dictionary from integer cell coordinates to the list of the indices
  hashed to the cell, in insertion order. A cell that was never written is absent.
\<close>

type_synonym cell = "int \<times> int \<times> int"

record SpatialHashGrid =
  cell_size :: real
  grid :: "cell \<Rightarrow> nat list option"

text \<open>
  \<open>int(np.floor(x / cell_size))\<close>: with a zero cell size numpy yields an infinity
  (\<open>int\<close> raises \<open>OverflowError\<close>) or, for \<open>x = 0\<close>, a NaN (\<open>int\<close> raises
  \<open>ValueError\<close>).
\<close>

definition cell_coord :: "real \<Rightarrow> real \<Rightarrow> error + int" where
  "cell_coord x c =
     (if c = 0 then Inl (if x = 0 then ValueError else OverflowError) else Inr \<lfloor>x / c\<rfloor>)"

definition hash_position :: "SpatialHashGrid \<Rightarrow> vec3 \<Rightarrow> error + cell" where
  "hash_position g position =
     (case position of (x, y, z) \<Rightarrow>
        ebind (cell_coord x (cell_size g)) (\<lambda>i.
        ebind (cell_coord y (cell_size g)) (\<lambda>j.
        ebind (cell_coord z (cell_size g)) (\<lambda>k. Inr (i, j, k)))))"

definition bucket :: "SpatialHashGrid \<Rightarrow> cell \<Rightarrow> nat list" where
  "bucket g c = (case grid g c of None \<Rightarrow> [] | Some l \<Rightarrow> l)"

definition grid_append :: "SpatialHashGrid \<Rightarrow> cell \<Rightarrow> nat \<Rightarrow> SpatialHashGrid" where
  "grid_append g c idx = g\<lparr>grid := (grid g)(c \<mapsto> bucket g c @ [idx])\<rparr>"

definition build_at :: "SpatialHashGrid \<Rightarrow> nat \<times> vec3 \<Rightarrow> error + SpatialHashGrid" where
  "build_at g ip =
     (case ip of (idx, pos) \<Rightarrow>
        ebind (hash_position g pos) (\<lambda>c. Inr (grid_append g c idx)))"

definition build :: "SpatialHashGrid \<Rightarrow> vec3 list \<Rightarrow> error + SpatialHashGrid" where
  "build g ps = for_each build_at (enumerate 0 ps) (g\<lparr>grid := Map.empty\<rparr>)"

definition neighbor_cells :: "cell \<Rightarrow> cell list" where
  "neighbor_cells c =
     (case c of (ci, cj, ck) \<Rightarrow>
        [(ci + di, cj + dj, ck + dk). di \<leftarrow> [- 1, 0, 1], dj \<leftarrow> [- 1, 0, 1], dk \<leftarrow> [- 1, 0, 1]])"

definition get_neighbors :: "SpatialHashGrid \<Rightarrow> vec3 \<Rightarrow> real \<Rightarrow> error + nat list" where
  "get_neighbors g position radius =
     ebind (hash_position g position) (\<lambda>c.
       Inr (concat (map (bucket g) (neighbor_cells c))))"

section \<open>Solver (sph_solver.py)\<close>

text \<open>
  The attribute \<open>h\<close> of the solver is the field \<open>sph_h\<close>. The solver counts its live
  particles in \<open>n_active\<close>, beside the store's own \<open>n_particles\<close>.
\<close>

record SPHSolver =
  domain_size :: vec3
  sph_h :: real
  particle_mass :: real
  rest_density :: real
  gas_constant :: real
  viscosity :: real
  gravity :: vec3
  dt :: real
  particles :: ParticleSystem
  n_active :: nat
  spatial_grid :: SpatialHashGrid
  time :: real
  step_count :: nat

text \<open>
  The constructor stores its arguments as they come; the one call in it that can raise
  is the allocation of the store.
\<close>

definition SPHSolver_init ::
  "vec3 \<Rightarrow> real \<Rightarrow> real \<Rightarrow> real \<Rightarrow> real \<Rightarrow> real \<Rightarrow> vec3 \<Rightarrow> real \<Rightarrow> int \<Rightarrow> error + SPHSolver" where
  "SPHSolver_init dsize smoothing_length mass rho0 k mu g time_step cap =
     ebind (ParticleSystem_init cap) (\<lambda>ps.
       Inr \<lparr> domain_size = dsize, sph_h = smoothing_length, particle_mass = mass,
             rest_density = rho0, gas_constant = k, viscosity = mu, gravity = g,
             dt = time_step, particles = ps, n_active = 0,
             spatial_grid = \<lparr> cell_size = smoothing_length, grid = Map.empty \<rparr>,
             time = 0, step_count = 0 \<rparr>)"

subsection \<open>Lattice of a fluid box\<close>

text \<open>
  \<open>add_fluid_box\<close> computes the lattice from Python floats:
  \<open>spacing = (volume / n_particles) ** (1/3)\<close> and, per axis,
  \<open>max(1, int(size[a] / spacing))\<close>, where \<open>int\<close> truncates towards zero. The second
  line is modelled here as a function of the spacing; the first is a binary64 power,
  whose rounding the real numbers of this embedding do not have.
\<close>

definition py_int :: "real \<Rightarrow> int" where
  "py_int x = (if 0 \<le> x then \<lfloor>x\<rfloor> else \<lceil>x\<rceil>)"

definition lattice_dim :: "real \<Rightarrow> real \<Rightarrow> error + int" where
  "lattice_dim size_a spacing = ebind (py_div size_a spacing) (\<lambda>q. Inr (max 1 (py_int q)))"

subsection \<open>Density and pressure\<close>

definition density_term :: "SPHSolver \<Rightarrow> vec3 \<Rightarrow> real \<Rightarrow> nat \<Rightarrow> error + real" where
  "density_term s pos_i density j =
     ebind (item (positions (particles s)) j) (\<lambda>pos_j.
     ebind (poly6 (Vec (vsub pos_i pos_j)) (sph_h s)) (\<lambda>W.
     ebind (item (masses (particles s)) j) (\<lambda>m_j.
       Inr (density + m_j * W))))"

definition density_at :: "SPHSolver \<Rightarrow> nat \<Rightarrow> error + SPHSolver" where
  "density_at s i =
     ebind (item (positions (particles s)) i) (\<lambda>pos_i.
     ebind (get_neighbors (spatial_grid s) pos_i (sph_h s)) (\<lambda>neighbors.
     ebind (for_each (density_term s pos_i) neighbors 0) (\<lambda>density0.
     let density = max density0 (rest_density s * (1 / 100)) in
     ebind (setitem (densities (particles s)) i density) (\<lambda>ds.
     ebind (setitem (pressures (particles s)) i (gas_constant s * (density - rest_density s))) (\<lambda>prs.
       Inr (s\<lparr>particles := (particles s)\<lparr>densities := ds, pressures := prs\<rparr>\<rparr>))))))"

definition compute_density_pressure :: "SPHSolver \<Rightarrow> error + SPHSolver" where
  "compute_density_pressure s =
     ebind (build (spatial_grid s) (take (n_active s) (positions (particles s)))) (\<lambda>g.
       for_each density_at [0..<n_active s] (s\<lparr>spatial_grid := g\<rparr>))"

subsection \<open>Forces\<close>

definition pressure_term :: "SPHSolver \<Rightarrow> nat \<Rightarrow> nat \<Rightarrow> vec3 \<Rightarrow> vec3 \<Rightarrow> error + vec3" where
  "pressure_term s i j grad_W f_pressure =
     ebind (item (densities (particles s)) j) (\<lambda>rho_j.
       if rho_j > 0 then
         ebind (item (pressures (particles s)) i) (\<lambda>P_i.
         ebind (item (pressures (particles s)) j) (\<lambda>P_j.
         let P_avg = (P_i + P_j) / 2 in
         ebind (item (masses (particles s)) j) (\<lambda>m_j.
         ebind (np_div (- m_j * P_avg) rho_j) (\<lambda>q.
           Inr (vadd f_pressure (smul q grad_W))))))
       else Inr f_pressure)"

definition viscosity_term ::
  "SPHSolver \<Rightarrow> nat \<Rightarrow> nat \<Rightarrow> vec3 \<Rightarrow> vec3 \<Rightarrow> real \<Rightarrow> vec3 \<Rightarrow> error + vec3" where
  "viscosity_term s i j vel_i vel_j lap_W f_viscosity =
     ebind (item (densities (particles s)) j) (\<lambda>rho_j.
       if rho_j > 0 then
         ebind (item (viscosities (particles s)) i) (\<lambda>visc.
         ebind (item (masses (particles s)) j) (\<lambda>m_j.
         ebind (np_vdiv (smul (visc * m_j) (vsub vel_j vel_i)) rho_j) (\<lambda>q.
           Inr (vadd f_viscosity (smul lap_W q)))))
       else Inr f_viscosity)"

definition force_term ::
  "SPHSolver \<Rightarrow> nat \<Rightarrow> vec3 \<Rightarrow> vec3 \<Rightarrow> vec3 \<times> vec3 \<Rightarrow> nat \<Rightarrow> error + vec3 \<times> vec3" where
  "force_term s i pos_i vel_i acc j =
     (case acc of (f_pressure, f_viscosity) \<Rightarrow>
        if i = j then Inr (f_pressure, f_viscosity)
        else
          ebind (item (positions (particles s)) j) (\<lambda>pos_j.
          ebind (item (velocities (particles s)) j) (\<lambda>vel_j.
          let r = vsub pos_i pos_j in
          ebind (spiky_gradient r (sph_h s)) (\<lambda>grad_W.
          ebind (pressure_term s i j grad_W f_pressure) (\<lambda>f_pressure'.
          ebind (viscosity_laplacian (Vec r) (sph_h s)) (\<lambda>lap_W.
          ebind (viscosity_term s i j vel_i vel_j lap_W f_viscosity) (\<lambda>f_viscosity'.
            Inr (f_pressure', f_viscosity'))))))))"

definition force_at :: "SPHSolver \<Rightarrow> nat \<Rightarrow> error + SPHSolver" where
  "force_at s i =
     ebind (item (positions (particles s)) i) (\<lambda>pos_i.
     ebind (item (velocities (particles s)) i) (\<lambda>vel_i.
     ebind (get_neighbors (spatial_grid s) pos_i (sph_h s)) (\<lambda>neighbors.
     ebind (for_each (force_term s i pos_i vel_i) neighbors (vzero, vzero)) (\<lambda>acc.
     ebind (item (masses (particles s)) i) (\<lambda>m_i.
     let f_gravity = smul m_i (gravity s) in
     ebind (setitem (forces (particles s)) i (vadd (vadd (fst acc) (snd acc)) f_gravity)) (\<lambda>fs.
       Inr (s\<lparr>particles := (particles s)\<lparr>forces := fs\<rparr>\<rparr>)))))))"

text \<open>The slice assignment \<open>forces[:n_active] = 0.0\<close> stops at the end of the array.\<close>

definition reset_forces :: "nat \<Rightarrow> vec3 list \<Rightarrow> vec3 list" where
  "reset_forces n fs = replicate (min n (length fs)) vzero @ drop n fs"

definition compute_forces :: "SPHSolver \<Rightarrow> error + SPHSolver" where
  "compute_forces s =
     for_each force_at [0..<n_active s]
       (s\<lparr>particles := (particles s)\<lparr>forces := reset_forces (n_active s) (forces (particles s))\<rparr>\<rparr>)"

subsection \<open>Integration and walls\<close>

text \<open>One axis of the wall test: the position and velocity component it leaves.\<close>

definition bounce :: "real \<Rightarrow> real \<Rightarrow> real \<Rightarrow> real \<times> real" where
  "bounce p v L =
     (let damping = 1 / 2; epsilon = 1 / 1000 in
      if p < 0 then (epsilon, \<bar>v\<bar> * damping)
      else if p > L then (L - epsilon, - \<bar>v\<bar> * damping)
      else (p, v))"

definition apply_boundary_conditions :: "SPHSolver \<Rightarrow> nat \<Rightarrow> error + SPHSolver" where
  "apply_boundary_conditions s particle_idx =
     ebind (item (positions (particles s)) particle_idx) (\<lambda>pos.
     ebind (item (velocities (particles s)) particle_idx) (\<lambda>vel.
     case pos of (px, py, pz) \<Rightarrow>
     case vel of (vx, vy, vz) \<Rightarrow>
     case domain_size s of (Lx, Ly, Lz) \<Rightarrow>
     let bx = bounce px vx Lx; by = bounce py vy Ly; bz = bounce pz vz Lz in
     ebind (setitem (positions (particles s)) particle_idx (fst bx, fst by, fst bz)) (\<lambda>ps.
     ebind (setitem (velocities (particles s)) particle_idx (snd bx, snd by, snd bz)) (\<lambda>vs.
       Inr (s\<lparr>particles := (particles s)\<lparr>positions := ps, velocities := vs\<rparr>\<rparr>)))))"

definition integrate_at :: "SPHSolver \<Rightarrow> nat \<Rightarrow> error + SPHSolver" where
  "integrate_at s i =
     ebind (item (masses (particles s)) i) (\<lambda>m.
     ebind (if m > 0 then ebind (item (forces (particles s)) i) (\<lambda>f. np_vdiv f m)
            else Inr vzero) (\<lambda>acceleration.
     ebind (item (velocities (particles s)) i) (\<lambda>v.
     ebind (setitem (velocities (particles s)) i (vadd v (smul (dt s) acceleration))) (\<lambda>vs.
     ebind (item (positions (particles s)) i) (\<lambda>p.
     ebind (item vs i) (\<lambda>v'.
     ebind (setitem (positions (particles s)) i (vadd p (smul (dt s) v'))) (\<lambda>ps.
       apply_boundary_conditions
         (s\<lparr>particles := (particles s)\<lparr>velocities := vs, positions := ps\<rparr>\<rparr>) i)))))))"

definition integrate :: "SPHSolver \<Rightarrow> error + SPHSolver" where
  "integrate s = for_each integrate_at [0..<n_active s] s"

definition step :: "SPHSolver \<Rightarrow> error + SPHSolver" where
  "step s =
     (if n_active s = 0 then Inr s
      else
        ebind (compute_density_pressure s) (\<lambda>s1.
        ebind (compute_forces s1) (\<lambda>s2.
        ebind (integrate s2) (\<lambda>s3.
          Inr (s3\<lparr>time := time s3 + dt s3, step_count := step_count s3 + 1\<rparr>)))))"


section \<open>Notions used in the statements\<close>

text \<open>The cell a position hashes to, for a cell size that is not zero.\<close>

definition cell_of :: "real \<Rightarrow> vec3 \<Rightarrow> cell" where
  "cell_of c p = (case p of (x, y, z) \<Rightarrow> (\<lfloor>x / c\<rfloor>, \<lfloor>y / c\<rfloor>, \<lfloor>z / c\<rfloor>))"


text \<open>
  A solver whose store has the constructor's arrays, whose live count fits the store, and
  whose smoothing length and cell size are not zero.
\<close>

definition solver_ok :: "SPHSolver \<Rightarrow> bool" where
  "solver_ok s \<longleftrightarrow>
     arrays_ok (particles s) \<and> int (n_active s) \<le> max_particles (particles s) \<and>
     sph_h s \<noteq> 0 \<and> cell_size (spatial_grid s) \<noteq> 0"

text \<open>Every index kept in the grid is the index of a live particle.\<close>

definition grid_ok :: "SPHSolver \<Rightarrow> bool" where
  "grid_ok s \<longleftrightarrow> (\<forall>c. \<forall>j\<in>set (bucket (spatial_grid s) c). j < n_active s)"

text \<open>
  The solver of the boundary-bounce scenario: one particle at \<open>(0.5, 0.01, 0.5)\<close> with
  velocity \<open>(0, -1, 0)\<close> in the unit cube, no gravity, time step \<open>0.01\<close>, the other
  parameters at the constructor's defaults.
\<close>

definition bounce_solver :: SPHSolver where
  "bounce_solver =
     \<lparr> domain_size = (1, 1, 1), sph_h = 1 / 20, particle_mass = 1 / 50,
       rest_density = 1000, gas_constant = 2000, viscosity = 1 / 1000, gravity = (0, 0, 0),
       dt = 1 / 100,
       particles = (store_of 1 1)\<lparr>positions := [(1 / 2, 1 / 100, 1 / 2)],
                                 velocities := [(0, - 1, 0)], masses := [1 / 50]\<rparr>,
       n_active = 1,
       spatial_grid = \<lparr> cell_size = 1 / 20, grid = Map.empty \<rparr>,
       time = 0, step_count = 0 \<rparr>"

text \<open>A position inside the box \<open>[0, L_x] \<times> [0, L_y] \<times> [0, L_z]\<close>.\<close>

definition in_domain :: "vec3 \<Rightarrow> vec3 \<Rightarrow> bool" where
  "in_domain L p =
     (case L of (Lx, Ly, Lz) \<Rightarrow> case p of (x, y, z) \<Rightarrow>
        0 \<le> x \<and> x \<le> Lx \<and> 0 \<le> y \<and> y \<le> Ly \<and> 0 \<le> z \<and> z \<le> Lz)"

text \<open>What the three wall tests of \<open>apply_boundary_conditions\<close> leave of a position and a velocity.\<close>

definition walls :: "vec3 \<Rightarrow> vec3 \<Rightarrow> vec3 \<Rightarrow> vec3 \<times> vec3" where
  "walls L p v =
     (case L of (Lx, Ly, Lz) \<Rightarrow> case p of (px, py, pz) \<Rightarrow> case v of (vx, vy, vz) \<Rightarrow>
        ((fst (bounce px vx Lx), fst (bounce py vy Ly), fst (bounce pz vz Lz)),
         (snd (bounce px vx Lx), snd (bounce py vy Ly), snd (bounce pz vz Lz))))"

text \<open>
  The acceleration, velocity and position \<open>integrate\<close> computes for particle \<open>i\<close> before
  the wall tests: the velocity first, the position from the new velocity.
\<close>

definition accel :: "SPHSolver \<Rightarrow> nat \<Rightarrow> vec3" where
  "accel s i =
     (if 0 < masses (particles s) ! i
      then vdivs (forces (particles s) ! i) (masses (particles s) ! i) else vzero)"

definition euler_velocity :: "SPHSolver \<Rightarrow> nat \<Rightarrow> vec3" where
  "euler_velocity s i = vadd (velocities (particles s) ! i) (smul (dt s) (accel s i))"

definition euler_position :: "SPHSolver \<Rightarrow> nat \<Rightarrow> vec3" where
  "euler_position s i = vadd (positions (particles s) ! i) (smul (dt s) (euler_velocity s i))"




section \<open>Facts about the error monad, the loops and the arrays\<close>

lemma ebind_Inr [simp]: "ebind (Inr x) f = f x"
  and ebind_Inl [simp]: "ebind (Inl e) f = Inl e"
  by (simp_all add: ebind_def)

lemma ebind_eq_Inr: "ebind m f = Inr y \<longleftrightarrow> (\<exists>x. m = Inr x \<and> f x = Inr y)"
  by (cases m) simp_all


lemma item_eq_Inr: "item xs i = Inr v \<longleftrightarrow> i < length xs \<and> v = xs ! i"
  by (auto simp: item_def)

lemma setitem_eq_Inr: "setitem xs i v = Inr ys \<longleftrightarrow> i < length xs \<and> ys = xs[i := v]"
  by (auto simp: setitem_def)

lemma item_in_range [simp]: "i < length xs \<Longrightarrow> item xs i = Inr (xs ! i)"
  by (simp add: item_def)

lemma setitem_in_range [simp]: "i < length xs \<Longrightarrow> setitem xs i v = Inr (xs[i := v])"
  by (simp add: setitem_def)

lemma for_each_append:
  "for_each body (xs @ ys) s = ebind (for_each body xs s) (for_each body ys)"
  by (induction xs arbitrary: s) (auto simp: ebind_def split: sum.splits)

lemma for_each_invariant:
  assumes "\<And>s x s'. x \<in> set xs \<Longrightarrow> P s \<Longrightarrow> body s x = Inr s' \<Longrightarrow> P s'"
    and "P s" and "for_each body xs s = Inr s'"
  shows "P s'"
  using assms
proof (induction xs arbitrary: s)
  case Nil
  then show ?case by simp
next
  case (Cons x xs)
  from Cons.prems(3) obtain s1 where b: "body s x = Inr s1" and r: "for_each body xs s1 = Inr s'"
    by (auto simp: ebind_eq_Inr)
  have "P s1" using Cons.prems(1)[of x s s1] Cons.prems(2) b by simp
  then show ?case using Cons.IH[of s1] Cons.prems(1) r by auto
qed

lemma for_each_total:
  assumes "\<And>s x. x \<in> set xs \<Longrightarrow> P s \<Longrightarrow> \<exists>s'. body s x = Inr s' \<and> P s'"
    and "P s"
  shows "\<exists>s'. for_each body xs s = Inr s' \<and> P s'"
  using assms
proof (induction xs arbitrary: s)
  case Nil
  then show ?case by simp
next
  case (Cons x xs)
  from Cons.prems(1)[of x s] Cons.prems(2) obtain s1 where b: "body s x = Inr s1" and p: "P s1"
    by auto
  from Cons.IH[of s1] Cons.prems(1) p obtain s' where "for_each body xs s1 = Inr s'" "P s'"
    by auto
  with b show ?case by auto
qed



section \<open>Facts about the grid\<close>

lemma hash_position_ok:
  "cell_size g \<noteq> 0 \<Longrightarrow> hash_position g p = Inr (cell_of (cell_size g) p)"
  by (cases p) (simp add: hash_position_def cell_coord_def cell_of_def)

lemma bucket_grid_append:
  "bucket (grid_append g c idx) c' = (if c' = c then bucket g c @ [idx] else bucket g c')"
  by (simp add: bucket_def grid_append_def)

lemma cell_size_grid_append [simp]: "cell_size (grid_append g c idx) = cell_size g"
  by (simp add: grid_append_def)

lemma build_loop:
  assumes "cell_size g \<noteq> 0"
  shows "\<exists>g'. for_each build_at (enumerate n ps) g = Inr g' \<and> cell_size g' = cell_size g \<and>
           (\<forall>c. set (bucket g' c) =
              set (bucket g c) \<union> {i. n \<le> i \<and> i < n + length ps \<and> cell_of (cell_size g) (ps ! (i - n)) = c})"
  using assms
proof (induction ps arbitrary: n g)
  case Nil
  then show ?case by auto
next
  case (Cons p ps)
  let ?g1 = "grid_append g (cell_of (cell_size g) p) n"
  have b: "build_at g (n, p) = Inr ?g1"
    using Cons.prems by (simp add: build_at_def hash_position_ok)
  have "cell_size ?g1 \<noteq> 0" using Cons.prems by simp
  from Cons.IH[OF this, of "Suc n"] obtain g' where
    g': "for_each build_at (enumerate (Suc n) ps) ?g1 = Inr g'" "cell_size g' = cell_size ?g1"
    and s: "\<And>c. set (bucket g' c) =
              set (bucket ?g1 c) \<union> {i. Suc n \<le> i \<and> i < Suc n + length ps \<and> cell_of (cell_size ?g1) (ps ! (i - Suc n)) = c}"
    by blast
  have "set (bucket g' c) =
              set (bucket g c) \<union> {i. n \<le> i \<and> i < n + length (p # ps) \<and> cell_of (cell_size g) ((p # ps) ! (i - n)) = c}" for c
  proof -
    have "{i. n \<le> i \<and> i < n + length (p # ps) \<and> cell_of (cell_size g) ((p # ps) ! (i - n)) = c}
        = (if cell_of (cell_size g) p = c then {n} else {}) \<union>
          {i. Suc n \<le> i \<and> i < Suc n + length ps \<and> cell_of (cell_size g) (ps ! (i - Suc n)) = c}"
      (is "?A = ?B")
    proof (intro set_eqI iffI)
      fix i assume "i \<in> ?A"
      then show "i \<in> ?B" by (cases "i = n") (auto simp: nth_Cons' Suc_diff_le split: if_splits)
    next
      fix i assume "i \<in> ?B"
      then show "i \<in> ?A" by (auto simp: nth_Cons' split: if_splits)
    qed
    then show ?thesis using s[of c] by (auto simp: bucket_grid_append)
  qed
  then show ?case using b g' by simp
qed

lemma build_ok:
  assumes "cell_size g \<noteq> 0"
  shows "\<exists>g'. build g ps = Inr g' \<and> cell_size g' = cell_size g \<and>
           (\<forall>c. set (bucket g' c) = {i. i < length ps \<and> cell_of (cell_size g) (ps ! i) = c})"
proof -
  have "cell_size (g\<lparr>grid := Map.empty\<rparr>) \<noteq> 0" using assms by simp
  from build_loop[OF this, of 0 ps] show ?thesis
    by (simp add: build_def bucket_def)
qed

lemma get_neighbors_ok:
  "cell_size g \<noteq> 0 \<Longrightarrow>
     get_neighbors g q radius = Inr (concat (map (bucket g) (neighbor_cells (cell_of (cell_size g) q))))"
  by (simp add: get_neighbors_def hash_position_ok)









section \<open>Facts about the density pass\<close>

lemma solver_ok_lengths:
  assumes "solver_ok s" "i < n_active s"
  shows "i < length (positions (particles s))" "i < length (velocities (particles s))"
    "i < length (forces (particles s))" "i < length (masses (particles s))"
    "i < length (densities (particles s))" "i < length (pressures (particles s))"
    "i < length (viscosities (particles s))"
proof -
  have "i < nat (max_particles (particles s))"
    using assms unfolding solver_ok_def by linarith
  then show "i < length (positions (particles s))" "i < length (velocities (particles s))"
    "i < length (forces (particles s))" "i < length (masses (particles s))"
    "i < length (densities (particles s))" "i < length (pressures (particles s))"
    "i < length (viscosities (particles s))"
    using assms(1) by (simp_all add: solver_ok_def arrays_ok_def)
qed

lemma poly6_total: "h \<noteq> 0 \<Longrightarrow> \<exists>w. poly6 r h = Inr w"
  by (simp add: poly6_def py_div_def Let_def)

lemma viscosity_laplacian_total: "h \<noteq> 0 \<Longrightarrow> \<exists>w. viscosity_laplacian r h = Inr w"
  by (simp add: viscosity_laplacian_def py_div_def Let_def)

lemma spiky_gradient_total: "h \<noteq> 0 \<Longrightarrow> \<exists>w. spiky_gradient r h = Inr w"
  by (simp add: spiky_gradient_def py_div_def np_vdiv_def Let_def del: split_paired_Ex)

lemma density_at_Inr:
  assumes "density_at s i = Inr s'"
  shows "\<exists>d. rest_density s * (1 / 100) \<le> d \<and>
           i < length (densities (particles s)) \<and> i < length (pressures (particles s)) \<and>
           s' = s\<lparr>particles := (particles s)\<lparr>
                  densities := (densities (particles s))[i := d],
                  pressures := (pressures (particles s))[i := gas_constant s * (d - rest_density s)]\<rparr>\<rparr>"
  using assms unfolding density_at_def Let_def ebind_eq_Inr setitem_eq_Inr
  by (elim exE conjE) (auto intro!: exI)

lemma get_neighbors_in_grid:
  assumes "get_neighbors g q radius = Inr ns" "j \<in> set ns"
  shows "\<exists>c. j \<in> set (bucket g c)"
  using assms unfolding get_neighbors_def ebind_eq_Inr by (auto simp del: split_paired_Ex)

lemma density_sum_total:
  assumes "sph_h s \<noteq> 0"
    and "\<And>j. j \<in> set ns \<Longrightarrow> j < length (positions (particles s)) \<and> j < length (masses (particles s))"
  shows "\<exists>d. for_each (density_term s pos_i) ns a = Inr d"
proof -
  have "\<exists>d'. for_each (density_term s pos_i) ns a = Inr d' \<and> True"
  proof (rule for_each_total)
    fix d j assume j: "j \<in> set ns"
    from poly6_total[OF assms(1)] obtain w
      where "poly6 (Vec (vsub pos_i (positions (particles s) ! j))) (sph_h s) = Inr w" by blast
    then show "\<exists>d'. density_term s pos_i d j = Inr d' \<and> True"
      using assms(2)[OF j] by (simp add: density_term_def)
  qed simp
  then show ?thesis by simp
qed

lemma density_at_total:
  assumes "solver_ok s" "grid_ok s" "i < n_active s"
  shows "\<exists>s'. density_at s i = Inr s'"
proof -
  have cs: "cell_size (spatial_grid s) \<noteq> 0" and h: "sph_h s \<noteq> 0"
    using assms(1) by (simp_all add: solver_ok_def)
  let ?p = "positions (particles s) ! i"
  obtain ns where ns: "get_neighbors (spatial_grid s) ?p (sph_h s) = Inr ns"
    using get_neighbors_ok[OF cs] by blast
  have r: "j < length (positions (particles s)) \<and> j < length (masses (particles s))"
    if "j \<in> set ns" for j
  proof -
    from get_neighbors_in_grid[OF ns that] assms(2) have "j < n_active s"
      by (auto simp: grid_ok_def)
    then show ?thesis using solver_ok_lengths[OF assms(1)] by simp
  qed
  from density_sum_total[OF h r, of ns ?p 0] obtain d
    where d: "for_each (density_term s ?p) ns 0 = Inr d" by blast
  show ?thesis
    using solver_ok_lengths[OF assms(1,3)] ns d by (simp add: density_at_def Let_def)
qed

lemma density_at_ok:
  assumes "density_at s i = Inr s'"
  shows "solver_ok s \<Longrightarrow> solver_ok s'" "grid_ok s \<Longrightarrow> grid_ok s'"
    "n_active s' = n_active s" "rest_density s' = rest_density s"
    "positions (particles s') = positions (particles s)"
    "spatial_grid s' = spatial_grid s"
  using density_at_Inr[OF assms]
  by (auto simp: solver_ok_def arrays_ok_def grid_ok_def)



lemma density_loop_total:
  assumes "solver_ok s" "grid_ok s" "set xs \<subseteq> {0..<n_active s}"
  shows "\<exists>s'. for_each density_at xs s = Inr s' \<and>
           (solver_ok s' \<and> grid_ok s' \<and> n_active s' = n_active s)"
proof (rule for_each_total)
  fix t x assume x: "x \<in> set xs" and p: "solver_ok t \<and> grid_ok t \<and> n_active t = n_active s"
  then have "x < n_active t" using assms(3) by auto
  with p obtain t' where t': "density_at t x = Inr t'" using density_at_total by blast
  then show "\<exists>t'. density_at t x = Inr t' \<and> (solver_ok t' \<and> grid_ok t' \<and> n_active t' = n_active s)"
    using p density_at_ok[OF t'] by simp
next
  show "solver_ok s \<and> grid_ok s \<and> n_active s = n_active s" using assms by simp
qed

lemma rebuilt_grid_ok:
  assumes "solver_ok s"
  shows "\<exists>g. build (spatial_grid s) (take (n_active s) (positions (particles s))) = Inr g \<and>
           solver_ok (s\<lparr>spatial_grid := g\<rparr>) \<and> grid_ok (s\<lparr>spatial_grid := g\<rparr>)"
proof -
  have cs: "cell_size (spatial_grid s) \<noteq> 0" using assms by (simp add: solver_ok_def)
  from build_ok[OF cs, of "take (n_active s) (positions (particles s))"] obtain g where
    g: "build (spatial_grid s) (take (n_active s) (positions (particles s))) = Inr g"
    "cell_size g = cell_size (spatial_grid s)"
    and b: "\<And>c. set (bucket g c) = {i. i < length (take (n_active s) (positions (particles s))) \<and>
          cell_of (cell_size (spatial_grid s)) (take (n_active s) (positions (particles s)) ! i) = c}"
    by blast
  have "solver_ok (s\<lparr>spatial_grid := g\<rparr>)" using assms g(2) by (simp add: solver_ok_def)
  moreover have "grid_ok (s\<lparr>spatial_grid := g\<rparr>)" by (simp add: grid_ok_def b)
  ultimately show ?thesis using g(1) by blast
qed

lemma compute_density_pressure_total:
  assumes "solver_ok s"
  shows "\<exists>s'. compute_density_pressure s = Inr s' \<and> solver_ok s' \<and> grid_ok s' \<and>
           n_active s' = n_active s"
proof -
  from rebuilt_grid_ok[OF assms] obtain g where
    g: "build (spatial_grid s) (take (n_active s) (positions (particles s))) = Inr g"
    and ok: "solver_ok (s\<lparr>spatial_grid := g\<rparr>)" "grid_ok (s\<lparr>spatial_grid := g\<rparr>)"
    by blast
  from density_loop_total[OF ok, of "[0..<n_active s]"] g show ?thesis
    by (simp add: compute_density_pressure_def)
qed


lemma neighbors_live:
  assumes "grid_ok s" "get_neighbors (spatial_grid s) q radius = Inr ns" "j \<in> set ns"
  shows "j < n_active s"
  using get_neighbors_in_grid[OF assms(2,3)] assms(1) by (auto simp: grid_ok_def)

lemma bounce_solver_ok: "solver_ok bounce_solver"
  by (simp add: solver_ok_def arrays_ok_def bounce_solver_def store_of_def)

section \<open>Facts about the force pass\<close>










lemma force_at_Inr:
  assumes "force_at s i = Inr s'"
  shows "\<exists>f. i < length (forces (particles s)) \<and>
           s' = s\<lparr>particles := (particles s)\<lparr>forces := (forces (particles s))[i := f]\<rparr>\<rparr>"
  using assms unfolding force_at_def Let_def ebind_eq_Inr setitem_eq_Inr
  by (elim exE conjE) (auto intro!: exI simp del: split_paired_Ex)

lemma force_at_ok:
  assumes "force_at s i = Inr s'"
  shows "solver_ok s \<Longrightarrow> solver_ok s'" "grid_ok s \<Longrightarrow> grid_ok s'"
    "n_active s' = n_active s"
  using force_at_Inr[OF assms]
  by (auto simp: solver_ok_def arrays_ok_def grid_ok_def)

lemma pressure_term_total:
  assumes "solver_ok s" "i < n_active s" "j < n_active s"
  shows "\<exists>f'. pressure_term s i j g f = Inr f'"
  using solver_ok_lengths[OF assms(1,2)] solver_ok_lengths[OF assms(1,3)]
  by (simp add: pressure_term_def Let_def np_div_def del: split_paired_Ex)

lemma viscosity_term_total:
  assumes "solver_ok s" "i < n_active s" "j < n_active s"
  shows "\<exists>f'. viscosity_term s i j vi vj w f = Inr f'"
  using solver_ok_lengths[OF assms(1,2)] solver_ok_lengths[OF assms(1,3)]
  by (simp add: viscosity_term_def Let_def np_vdiv_def del: split_paired_Ex)

lemma force_term_total:
  assumes "solver_ok s" "i < n_active s" "j < n_active s"
  shows "\<exists>acc'. force_term s i p v acc j = Inr acc'"
proof -
  obtain fp fv where acc: "acc = (fp, fv)" by (cases acc) auto
  have h: "sph_h s \<noteq> 0" using assms(1) by (simp add: solver_ok_def)
  let ?r = "vsub p (positions (particles s) ! j)"
  from spiky_gradient_total[OF h] obtain g where g: "spiky_gradient ?r (sph_h s) = Inr g" by blast
  from pressure_term_total[OF assms] obtain fp' where fp: "pressure_term s i j g fp = Inr fp'" by blast
  from viscosity_laplacian_total[OF h] obtain w where w: "viscosity_laplacian (Vec ?r) (sph_h s) = Inr w"
    by blast
  from viscosity_term_total[OF assms] obtain fv'
    where fv: "viscosity_term s i j v (velocities (particles s) ! j) w fv = Inr fv'" by blast
  show ?thesis
    using solver_ok_lengths[OF assms(1,3)] g fp w fv
    by (simp add: force_term_def acc Let_def del: split_paired_Ex)
qed

lemma force_at_total:
  assumes "solver_ok s" "grid_ok s" "i < n_active s"
  shows "\<exists>s'. force_at s i = Inr s'"
proof -
  have cs: "cell_size (spatial_grid s) \<noteq> 0" using assms(1) by (simp add: solver_ok_def)
  let ?p = "positions (particles s) ! i"
  let ?v = "velocities (particles s) ! i"
  obtain ns where ns: "get_neighbors (spatial_grid s) ?p (sph_h s) = Inr ns"
    using get_neighbors_ok[OF cs] by blast
  have "\<exists>acc. for_each (force_term s i ?p ?v) ns (vzero, vzero) = Inr acc \<and> True"
  proof (rule for_each_total)
    fix acc j assume j: "j \<in> set ns"
    from get_neighbors_in_grid[OF ns j] assms(2) have "j < n_active s"
      by (auto simp: grid_ok_def)
    from force_term_total[OF assms(1,3) this]
    show "\<exists>acc'. force_term s i ?p ?v acc j = Inr acc' \<and> True" by simp
  qed simp
  then obtain acc where a: "for_each (force_term s i ?p ?v) ns (vzero, vzero) = Inr acc" by blast
  show ?thesis
    using solver_ok_lengths[OF assms(1,3)] ns a by (simp add: force_at_def Let_def)
qed

lemma force_loop_total:
  assumes "solver_ok s" "grid_ok s" "set xs \<subseteq> {0..<n_active s}"
  shows "\<exists>s'. for_each force_at xs s = Inr s' \<and>
           (solver_ok s' \<and> grid_ok s' \<and> n_active s' = n_active s)"
proof (rule for_each_total)
  fix t x assume x: "x \<in> set xs" and p: "solver_ok t \<and> grid_ok t \<and> n_active t = n_active s"
  then have "x < n_active t" using assms(3) by auto
  with p obtain t' where t': "force_at t x = Inr t'" using force_at_total by blast
  then show "\<exists>t'. force_at t x = Inr t' \<and> (solver_ok t' \<and> grid_ok t' \<and> n_active t' = n_active s)"
    using p force_at_ok[OF t'] by simp
next
  show "solver_ok s \<and> grid_ok s \<and> n_active s = n_active s" using assms by simp
qed

lemma length_reset_forces [simp]: "length (reset_forces n fs) = length fs"
  by (simp add: reset_forces_def)

lemma compute_forces_total:
  assumes "solver_ok s" "grid_ok s"
  shows "\<exists>s'. compute_forces s = Inr s' \<and> solver_ok s' \<and> grid_ok s' \<and> n_active s' = n_active s"
proof -
  let ?s0 = "s\<lparr>particles := (particles s)\<lparr>forces := reset_forces (n_active s) (forces (particles s))\<rparr>\<rparr>"
  have "solver_ok ?s0" "grid_ok ?s0" "n_active ?s0 = n_active s"
    using assms by (simp_all add: solver_ok_def arrays_ok_def grid_ok_def)
  from force_loop_total[OF this(1,2), of "[0..<n_active s]"] show ?thesis
    by (simp add: compute_forces_def)
qed

section \<open>Facts about integration and the walls\<close>

lemma apply_boundary_conditions_Inr:
  assumes "apply_boundary_conditions s i = Inr s'"
  shows "i < length (positions (particles s)) \<and> i < length (velocities (particles s)) \<and>
     s' = s\<lparr>particles := (particles s)\<lparr>
            positions := (positions (particles s))
               [i := fst (walls (domain_size s) (positions (particles s) ! i) (velocities (particles s) ! i))],
            velocities := (velocities (particles s))
               [i := snd (walls (domain_size s) (positions (particles s) ! i) (velocities (particles s) ! i))]\<rparr>\<rparr>"
proof -
  obtain px py pz where p: "positions (particles s) ! i = (px, py, pz)"
    by (cases "positions (particles s) ! i") auto
  obtain vx vy vz where v: "velocities (particles s) ! i = (vx, vy, vz)"
    by (cases "velocities (particles s) ! i") auto
  obtain Lx Ly Lz where L: "domain_size s = (Lx, Ly, Lz)"
    by (cases "domain_size s") auto
  from assms show ?thesis
    unfolding apply_boundary_conditions_def ebind_eq_Inr item_eq_Inr setitem_eq_Inr
    by (auto simp: p v L walls_def Let_def)
qed

lemma integrate_at_Inr:
  assumes "integrate_at s i = Inr s'"
  shows "i < length (positions (particles s)) \<and> i < length (velocities (particles s)) \<and>
     s' = s\<lparr>particles := (particles s)\<lparr>
            velocities := (velocities (particles s))
               [i := snd (walls (domain_size s) (euler_position s i) (euler_velocity s i))],
            positions := (positions (particles s))
               [i := fst (walls (domain_size s) (euler_position s i) (euler_velocity s i))]\<rparr>\<rparr>"
proof -
  from assms obtain m a v vs p v' ps where
    m: "item (masses (particles s)) i = Inr m"
    and a: "(if m > 0 then ebind (item (forces (particles s)) i) (\<lambda>f. np_vdiv f m) else Inr vzero) = Inr a"
    and v: "item (velocities (particles s)) i = Inr v"
    and vs: "setitem (velocities (particles s)) i (vadd v (smul (dt s) a)) = Inr vs"
    and p: "item (positions (particles s)) i = Inr p"
    and v': "item vs i = Inr v'"
    and ps: "setitem (positions (particles s)) i (vadd p (smul (dt s) v')) = Inr ps"
    and b: "apply_boundary_conditions
         (s\<lparr>particles := (particles s)\<lparr>velocities := vs, positions := ps\<rparr>\<rparr>) i = Inr s'"
    unfolding integrate_at_def ebind_eq_Inr by blast
  have a': "a = accel s i"
    using a m by (auto simp: accel_def item_eq_Inr ebind_eq_Inr np_vdiv_def split: if_splits)
  have li: "i < length (velocities (particles s))" "i < length (positions (particles s))"
    using v p by (simp_all add: item_eq_Inr)
  have v2: "v' = euler_velocity s i"
    using v vs v' a' by (auto simp: item_eq_Inr setitem_eq_Inr euler_velocity_def)
  have ps2: "ps = (positions (particles s))[i := euler_position s i]"
    using p ps v2 by (auto simp: item_eq_Inr setitem_eq_Inr euler_position_def)
  have vs2: "vs = (velocities (particles s))[i := euler_velocity s i]"
    using v vs a' by (auto simp: item_eq_Inr setitem_eq_Inr euler_velocity_def)
  from apply_boundary_conditions_Inr[OF b] li show ?thesis
    by (simp add: ps2 vs2)
qed

lemma integrate_at_total:
  assumes "solver_ok s" "i < n_active s"
  shows "\<exists>s'. integrate_at s i = Inr s'"
proof -
  have "\<exists>a. (if masses (particles s) ! i > 0
        then ebind (item (forces (particles s)) i) (\<lambda>f. np_vdiv f (masses (particles s) ! i))
        else Inr vzero) = Inr a"
    using solver_ok_lengths[OF assms] by (simp add: np_vdiv_def del: split_paired_Ex)
  then obtain a where a: "(if masses (particles s) ! i > 0
        then ebind (item (forces (particles s)) i) (\<lambda>f. np_vdiv f (masses (particles s) ! i))
        else Inr vzero) = Inr a" by blast
  show ?thesis
    using solver_ok_lengths[OF assms] a
    by (simp add: integrate_at_def apply_boundary_conditions_def Let_def split: prod.splits)
qed

lemma integrate_at_ok:
  assumes "integrate_at s i = Inr s'"
  shows "solver_ok s \<Longrightarrow> solver_ok s'" "grid_ok s \<Longrightarrow> grid_ok s'"
    "n_active s' = n_active s" "domain_size s' = domain_size s"
  using integrate_at_Inr[OF assms]
  by (auto simp: solver_ok_def arrays_ok_def grid_ok_def)

lemma integrate_loop_total:
  assumes "solver_ok s" "set xs \<subseteq> {0..<n_active s}"
  shows "\<exists>s'. for_each integrate_at xs s = Inr s' \<and>
           (solver_ok s' \<and> n_active s' = n_active s)"
proof (rule for_each_total)
  fix t x assume x: "x \<in> set xs" and p: "solver_ok t \<and> n_active t = n_active s"
  then have "x < n_active t" using assms(2) by auto
  with p obtain t' where t': "integrate_at t x = Inr t'" using integrate_at_total by blast
  then show "\<exists>t'. integrate_at t x = Inr t' \<and> (solver_ok t' \<and> n_active t' = n_active s)"
    using p integrate_at_ok[OF t'] by simp
next
  show "solver_ok s \<and> n_active s = n_active s" using assms by simp
qed

lemma integrate_loop_frame:
  assumes "i \<notin> set xs" "for_each integrate_at xs s = Inr s'"
  shows "positions (particles s') ! i = positions (particles s) ! i \<and>
         velocities (particles s') ! i = velocities (particles s) ! i \<and>
         forces (particles s') = forces (particles s) \<and>
         masses (particles s') = masses (particles s) \<and>
         dt s' = dt s \<and> domain_size s' = domain_size s"
proof (rule for_each_invariant[where P = "\<lambda>t. positions (particles t) ! i = positions (particles s) ! i \<and>
         velocities (particles t) ! i = velocities (particles s) ! i \<and>
         forces (particles t) = forces (particles s) \<and>
         masses (particles t) = masses (particles s) \<and>
         dt t = dt s \<and> domain_size t = domain_size s" and body = integrate_at and xs = xs and s = s])
  fix t x t'
  assume x: "x \<in> set xs"
    and p: "positions (particles t) ! i = positions (particles s) ! i \<and>
         velocities (particles t) ! i = velocities (particles s) ! i \<and>
         forces (particles t) = forces (particles s) \<and>
         masses (particles t) = masses (particles s) \<and>
         dt t = dt s \<and> domain_size t = domain_size s"
    and b: "integrate_at t x = Inr t'"
  from x assms(1) have "x \<noteq> i" by auto
  with integrate_at_Inr[OF b] p
  show "positions (particles t') ! i = positions (particles s) ! i \<and>
         velocities (particles t') ! i = velocities (particles s) ! i \<and>
         forces (particles t') = forces (particles s) \<and>
         masses (particles t') = masses (particles s) \<and>
         dt t' = dt s \<and> domain_size t' = domain_size s"
    by auto
next
  show "positions (particles s) ! i = positions (particles s) ! i \<and>
         velocities (particles s) ! i = velocities (particles s) ! i \<and>
         forces (particles s) = forces (particles s) \<and>
         masses (particles s) = masses (particles s) \<and>
         dt s = dt s \<and> domain_size s = domain_size s" by simp
  show "for_each integrate_at xs s = Inr s'" by (rule assms(2))
qed

lemma euler_cong:
  assumes "positions (particles t) ! i = positions (particles s) ! i"
    "velocities (particles t) ! i = velocities (particles s) ! i"
    "forces (particles t) = forces (particles s)"
    "masses (particles t) = masses (particles s)" "dt t = dt s"
  shows "euler_velocity t i = euler_velocity s i" "euler_position t i = euler_position s i"
  using assms by (simp_all add: euler_velocity_def euler_position_def accel_def)

lemma integrate_row:
  assumes "integrate s = Inr s'" "i < n_active s"
  shows "velocities (particles s') ! i =
           snd (walls (domain_size s) (euler_position s i) (euler_velocity s i))"
    and "positions (particles s') ! i =
           fst (walls (domain_size s) (euler_position s i) (euler_velocity s i))"
proof -
  have "[0..<i + (n_active s - i)] = [0..<i] @ [i..<i + (n_active s - i)]"
    by (rule upt_add_eq_append) simp
  then have "[0..<n_active s] = [0..<i] @ [i..<n_active s]"
    using assms(2) by simp
  moreover have "[i..<n_active s] = i # [Suc i..<n_active s]"
    by (rule upt_conv_Cons) (rule assms(2))
  ultimately have split: "[0..<n_active s] = [0..<i] @ i # [Suc i..<n_active s]" by simp
  from assms(1) obtain s1 s2 where
    1: "for_each integrate_at [0..<i] s = Inr s1"
    and 2: "integrate_at s1 i = Inr s2"
    and 3: "for_each integrate_at [Suc i..<n_active s] s2 = Inr s'"
    unfolding integrate_def split for_each_append for_each.simps ebind_eq_Inr by blast
  have f1: "positions (particles s1) ! i = positions (particles s) ! i \<and>
         velocities (particles s1) ! i = velocities (particles s) ! i \<and>
         forces (particles s1) = forces (particles s) \<and>
         masses (particles s1) = masses (particles s) \<and>
         dt s1 = dt s \<and> domain_size s1 = domain_size s"
    by (rule integrate_loop_frame[OF _ 1]) simp
  have f3: "positions (particles s') ! i = positions (particles s2) ! i \<and>
         velocities (particles s') ! i = velocities (particles s2) ! i"
    using integrate_loop_frame[OF _ 3, of i] by simp
  from f1 have e: "euler_velocity s1 i = euler_velocity s i" "euler_position s1 i = euler_position s i"
    using euler_cong[of s1 i s] by blast+
  from integrate_at_Inr[OF 2] have
    "velocities (particles s2) ! i = snd (walls (domain_size s1) (euler_position s1 i) (euler_velocity s1 i))"
    "positions (particles s2) ! i = fst (walls (domain_size s1) (euler_position s1 i) (euler_velocity s1 i))"
    by auto
  with f1 f3 e
  show "velocities (particles s') ! i =
           snd (walls (domain_size s) (euler_position s i) (euler_velocity s i))"
    and "positions (particles s') ! i =
           fst (walls (domain_size s) (euler_position s i) (euler_velocity s i))"
    by simp_all
qed



lemma integrate_total:
  assumes "solver_ok s"
  shows "\<exists>s'. integrate s = Inr s' \<and> solver_ok s' \<and> n_active s' = n_active s"
  using integrate_loop_total[OF assms, of "[0..<n_active s]"] by (simp add: integrate_def)


section \<open>Facts about one step\<close>

lemma density_loop_eq:
  assumes "for_each density_at xs s = Inr s'"
  shows "\<exists>ds prs. length ds = length (densities (particles s)) \<and>
           length prs = length (pressures (particles s)) \<and>
           s' = s\<lparr>particles := (particles s)\<lparr>densities := ds, pressures := prs\<rparr>\<rparr>"
proof (rule for_each_invariant[where P = "\<lambda>t. \<exists>ds prs. length ds = length (densities (particles s)) \<and>
           length prs = length (pressures (particles s)) \<and>
           t = s\<lparr>particles := (particles s)\<lparr>densities := ds, pressures := prs\<rparr>\<rparr>"
      and body = density_at and xs = xs and s = s, OF _ _ assms])
  fix t x t'
  assume "\<exists>ds prs. length ds = length (densities (particles s)) \<and>
           length prs = length (pressures (particles s)) \<and>
           t = s\<lparr>particles := (particles s)\<lparr>densities := ds, pressures := prs\<rparr>\<rparr>"
    and b: "density_at t x = Inr t'"
  then obtain ds prs where l: "length ds = length (densities (particles s))"
    "length prs = length (pressures (particles s))"
    and t: "t = s\<lparr>particles := (particles s)\<lparr>densities := ds, pressures := prs\<rparr>\<rparr>" by blast
  from density_at_Inr[OF b] obtain d where
    "t' = t\<lparr>particles := (particles t)\<lparr>
                  densities := (densities (particles t))[x := d],
                  pressures := (pressures (particles t))[x := gas_constant t * (d - rest_density t)]\<rparr>\<rparr>"
    by blast
  then have "t' = s\<lparr>particles := (particles s)\<lparr>densities := ds[x := d],
       pressures := prs[x := gas_constant t * (d - rest_density t)]\<rparr>\<rparr>"
    by (simp add: t)
  with l show "\<exists>ds prs. length ds = length (densities (particles s)) \<and>
           length prs = length (pressures (particles s)) \<and>
           t' = s\<lparr>particles := (particles s)\<lparr>densities := ds, pressures := prs\<rparr>\<rparr>"
    by (intro exI[of _ "ds[x := d]"] exI[of _ "prs[x := gas_constant t * (d - rest_density t)]"]) simp
next
  show "\<exists>ds prs. length ds = length (densities (particles s)) \<and>
           length prs = length (pressures (particles s)) \<and>
           s = s\<lparr>particles := (particles s)\<lparr>densities := ds, pressures := prs\<rparr>\<rparr>"
    by (intro exI[of _ "densities (particles s)"] exI[of _ "pressures (particles s)"]) simp
qed

lemma compute_density_pressure_eq:
  assumes "compute_density_pressure s = Inr s'"
  shows "\<exists>g ds prs.
           s' = s\<lparr>spatial_grid := g, particles := (particles s)\<lparr>densities := ds, pressures := prs\<rparr>\<rparr>"
proof -
  from assms obtain g where
    l: "for_each density_at [0..<n_active s] (s\<lparr>spatial_grid := g\<rparr>) = Inr s'"
    by (auto simp: compute_density_pressure_def ebind_eq_Inr)
  from density_loop_eq[OF l] show ?thesis by auto
qed



lemma integrate_loop_eq:
  assumes "for_each integrate_at xs s = Inr s'"
  shows "\<exists>vs ps. s' = s\<lparr>particles := (particles s)\<lparr>velocities := vs, positions := ps\<rparr>\<rparr>"
proof (rule for_each_invariant[where P = "\<lambda>t. \<exists>vs ps.
           t = s\<lparr>particles := (particles s)\<lparr>velocities := vs, positions := ps\<rparr>\<rparr>"
      and body = integrate_at and xs = xs and s = s, OF _ _ assms])
  fix t x t'
  assume "\<exists>vs ps. t = s\<lparr>particles := (particles s)\<lparr>velocities := vs, positions := ps\<rparr>\<rparr>"
    and b: "integrate_at t x = Inr t'"
  then obtain vs ps where
    t: "t = s\<lparr>particles := (particles s)\<lparr>velocities := vs, positions := ps\<rparr>\<rparr>" by blast
  from integrate_at_Inr[OF b] obtain wv wp where
    "t' = t\<lparr>particles := (particles t)\<lparr>velocities := (velocities (particles t))[x := wv],
            positions := (positions (particles t))[x := wp]\<rparr>\<rparr>"
    by blast
  then have "t' = s\<lparr>particles := (particles s)\<lparr>velocities := vs[x := wv], positions := ps[x := wp]\<rparr>\<rparr>"
    by (simp add: t)
  then show "\<exists>vs ps. t' = s\<lparr>particles := (particles s)\<lparr>velocities := vs, positions := ps\<rparr>\<rparr>"
    by blast
next
  show "\<exists>vs ps. s = s\<lparr>particles := (particles s)\<lparr>velocities := vs, positions := ps\<rparr>\<rparr>"
    by (intro exI[of _ "velocities (particles s)"] exI[of _ "positions (particles s)"]) simp
qed

lemma force_loop_self:
  assumes "\<forall>j\<in>set ns. j = i"
  shows "for_each (force_term s i p v) ns acc = Inr acc"
  using assms by (induction ns) (auto simp: force_term_def split: prod.splits)

lemma single_force_at:
  assumes "solver_ok s" "grid_ok s" "n_active s = 1"
  shows "force_at s 0 = Inr (s\<lparr>particles := (particles s)\<lparr>forces :=
           (forces (particles s))[0 := smul (masses (particles s) ! 0) (gravity s)]\<rparr>\<rparr>)"
proof -
  have cs: "cell_size (spatial_grid s) \<noteq> 0" using assms(1) by (simp add: solver_ok_def)
  have i: "0 < n_active s" using assms(3) by simp
  let ?p = "positions (particles s) ! 0"
  let ?v = "velocities (particles s) ! 0"
  obtain ns where ns: "get_neighbors (spatial_grid s) ?p (sph_h s) = Inr ns"
    using get_neighbors_ok[OF cs] by blast
  have "\<forall>j\<in>set ns. j = 0" using neighbors_live[OF assms(2) ns] assms(3) by auto
  then have l: "for_each (force_term s 0 ?p ?v) ns (vzero, vzero) = Inr (vzero, vzero)"
    by (rule force_loop_self)
  have z: "vadd (vadd vzero vzero) w = w" for w by (cases w) (simp add: vzero_def)
  show ?thesis
    using solver_ok_lengths[OF assms(1) i] ns l by (simp add: force_at_def Let_def z)
qed

lemma single_compute_forces:
  assumes "solver_ok s" "grid_ok s" "n_active s = 1"
  shows "\<exists>fs. compute_forces s = Inr (s\<lparr>particles := (particles s)\<lparr>forces := fs\<rparr>\<rparr>) \<and>
           length fs = length (forces (particles s)) \<and>
           fs ! 0 = smul (masses (particles s) ! 0) (gravity s)"
proof -
  let ?s0 = "s\<lparr>particles := (particles s)\<lparr>forces := reset_forces (n_active s) (forces (particles s))\<rparr>\<rparr>"
  have ok: "solver_ok ?s0" "grid_ok ?s0" "n_active ?s0 = 1"
    using assms by (simp_all add: solver_ok_def arrays_ok_def grid_ok_def)
  have u: "[0..<n_active s] = [0]" using assms(3) by simp
  have l: "0 < length (forces (particles s))"
    using solver_ok_lengths(3)[OF assms(1), of 0] assms(3) by simp
  show ?thesis
    unfolding compute_forces_def u
    using single_force_at[OF ok] l
    by (intro exI[of _ "(reset_forces (n_active s) (forces (particles s)))
          [0 := smul (masses (particles s) ! 0) (gravity s)]"]) simp
qed

lemma single_step:
  fixes s :: SPHSolver
  defines "m \<equiv> masses (particles s) ! 0"
  defines "v' \<equiv> vadd (velocities (particles s) ! 0)
      (smul (dt s) (if 0 < m then vdivs (smul m (gravity s)) m else vzero))"
  defines "p' \<equiv> vadd (positions (particles s) ! 0) (smul (dt s) v')"
  assumes ok: "solver_ok s" and n: "n_active s = 1"
  shows "\<exists>s'. step s = Inr s' \<and> solver_ok s' \<and> n_active s' = 1 \<and> gravity s' = gravity s \<and>
     dt s' = dt s \<and> domain_size s' = domain_size s \<and>
     masses (particles s') = masses (particles s) \<and>
     positions (particles s') ! 0 = fst (walls (domain_size s) p' v') \<and>
     velocities (particles s') ! 0 = snd (walls (domain_size s) p' v')"
proof -
  from compute_density_pressure_total[OF ok] obtain s1 where
    s1: "compute_density_pressure s = Inr s1" and ok1: "solver_ok s1" "grid_ok s1"
    and n1: "n_active s1 = 1" using n by auto
  from compute_density_pressure_eq[OF s1] obtain g ds prs where
    e1: "s1 = s\<lparr>spatial_grid := g, particles := (particles s)\<lparr>densities := ds, pressures := prs\<rparr>\<rparr>"
    by blast
  from single_compute_forces[OF ok1 n1] obtain fs where
    s2: "compute_forces s1 = Inr (s1\<lparr>particles := (particles s1)\<lparr>forces := fs\<rparr>\<rparr>)"
    and f0: "fs ! 0 = smul (masses (particles s1) ! 0) (gravity s1)" by blast
  let ?s2 = "s1\<lparr>particles := (particles s1)\<lparr>forces := fs\<rparr>\<rparr>"
  from compute_forces_total[OF ok1] s2 have ok2: "solver_ok ?s2" and n2: "n_active ?s2 = 1"
    using n1 by auto
  from integrate_total[OF ok2] obtain s3 where
    s3: "integrate ?s2 = Inr s3" and ok3: "solver_ok s3" and n3: "n_active s3 = 1"
    using n2 by auto
  from integrate_loop_eq[OF s3[unfolded integrate_def]] obtain vs ps where
    e3: "s3 = ?s2\<lparr>particles := (particles ?s2)\<lparr>velocities := vs, positions := ps\<rparr>\<rparr>" by blast
  have ev: "euler_velocity ?s2 0 = v'"
    by (simp add: euler_velocity_def accel_def f0 e1 v'_def m_def)
  have ep: "euler_position ?s2 0 = p'"
    unfolding euler_position_def ev by (simp add: e1 p'_def)
  have d2: "domain_size ?s2 = domain_size s" by (simp add: e1)
  have i2: "0 < n_active ?s2" using n2 by simp
  from integrate_row[OF s3 i2] have rows:
    "velocities (particles s3) ! 0 = snd (walls (domain_size s) p' v')"
    "positions (particles s3) ! 0 = fst (walls (domain_size s) p' v')"
    unfolding ev ep d2 by simp_all
  let ?s' = "s3\<lparr>time := time s3 + dt s3, step_count := step_count s3 + 1\<rparr>"
  have st: "step s = Inr ?s'"
    using n s1 s2 s3 by (simp add: step_def)
  have fr: "gravity s3 = gravity s" "dt s3 = dt s" "domain_size s3 = domain_size s"
    "masses (particles s3) = masses (particles s)"
    by (simp_all add: e3 e1)
  have "solver_ok ?s'" using ok3 by (simp add: solver_ok_def)
  with st n3 fr rows show ?thesis by simp
qed

lemma single_step_no_gravity:
  assumes ok: "solver_ok s" and n: "n_active s = 1" and g: "gravity s = (0, 0, 0)"
  shows "\<exists>s'. step s = Inr s' \<and> solver_ok s' \<and> n_active s' = 1 \<and> gravity s' = (0, 0, 0) \<and>
     dt s' = dt s \<and> domain_size s' = domain_size s \<and>
     positions (particles s') ! 0 =
       fst (walls (domain_size s)
             (vadd (positions (particles s) ! 0) (smul (dt s) (velocities (particles s) ! 0)))
             (velocities (particles s) ! 0)) \<and>
     velocities (particles s') ! 0 =
       snd (walls (domain_size s)
             (vadd (positions (particles s) ! 0) (smul (dt s) (velocities (particles s) ! 0)))
             (velocities (particles s) ! 0))"
proof -
  have a: "(if 0 < m then vdivs (smul m (0, 0, 0)) m else vzero) = (0, 0, 0)" for m :: real
    by (simp add: vzero_def)
  have b: "vadd w (smul c (0, 0, 0)) = w" for w c by (cases w) simp
  from single_step[OF ok n] show ?thesis
    unfolding g a b by auto
qed

lemma bounce_scenario_steps:
  assumes "solver_ok s" "n_active s = 1" "gravity s = (0, 0, 0)" "dt s = 1 / 100"
    "positions (particles s) ! 0 = (1 / 2, 1 / 100, 1 / 2)"
    "velocities (particles s) ! 0 = (0, - 1, 0)"
    "in_domain (domain_size s) (1 / 2, 1 / 100, 1 / 2)"
  shows "\<exists>s1 s2. step s = Inr s1 \<and>
           positions (particles s1) ! 0 = (1 / 2, 0, 1 / 2) \<and>
           velocities (particles s1) ! 0 = (0, - 1, 0) \<and>
           step s1 = Inr s2 \<and>
           positions (particles s2) ! 0 = (1 / 2, 1 / 1000, 1 / 2) \<and>
           velocities (particles s2) ! 0 = (0, 1 / 2, 0)"
proof -
  obtain Lx Ly Lz where L: "domain_size s = (Lx, Ly, Lz)" by (cases "domain_size s") auto
  from assms(7) have b: "1 / 2 \<le> Lx" "0 \<le> Ly" "1 / 2 \<le> Lz" by (simp_all add: L in_domain_def)
  from single_step_no_gravity[OF assms(1,2,3)] obtain s1 where
    s1: "step s = Inr s1" and ok1: "solver_ok s1" "n_active s1 = 1" "gravity s1 = (0, 0, 0)"
    and f1: "dt s1 = dt s" "domain_size s1 = domain_size s"
    and p1: "positions (particles s1) ! 0 =
       fst (walls (domain_size s)
             (vadd (positions (particles s) ! 0) (smul (dt s) (velocities (particles s) ! 0)))
             (velocities (particles s) ! 0))"
    and v1: "velocities (particles s1) ! 0 =
       snd (walls (domain_size s)
             (vadd (positions (particles s) ! 0) (smul (dt s) (velocities (particles s) ! 0)))
             (velocities (particles s) ! 0))"
    by blast
  have p1': "positions (particles s1) ! 0 = (1 / 2, 0, 1 / 2)"
    and v1': "velocities (particles s1) ! 0 = (0, - 1, 0)"
    using b unfolding p1 v1 assms(4,5,6) L by (simp_all add: walls_def bounce_def)
  from single_step_no_gravity[OF ok1] obtain s2 where
    s2: "step s1 = Inr s2"
    and p2: "positions (particles s2) ! 0 =
       fst (walls (domain_size s1)
             (vadd (positions (particles s1) ! 0) (smul (dt s1) (velocities (particles s1) ! 0)))
             (velocities (particles s1) ! 0))"
    and v2: "velocities (particles s2) ! 0 =
       snd (walls (domain_size s1)
             (vadd (positions (particles s1) ! 0) (smul (dt s1) (velocities (particles s1) ! 0)))
             (velocities (particles s1) ! 0))"
    by blast
  have "positions (particles s2) ! 0 = (1 / 2, 1 / 1000, 1 / 2)"
    and "velocities (particles s2) ! 0 = (0, 1 / 2, 0)"
    using b unfolding p2 v2 p1' v1' f1 assms(4) L by (simp_all add: walls_def bounce_def)
  with s1 p1' v1' s2 show ?thesis by blast
qed

lemma bounce_solver_scenario:
  "n_active bounce_solver = 1" "gravity bounce_solver = (0, 0, 0)" "dt bounce_solver = 1 / 100"
  "positions (particles bounce_solver) ! 0 = (1 / 2, 1 / 100, 1 / 2)"
  "velocities (particles bounce_solver) ! 0 = (0, - 1, 0)"
  "in_domain (domain_size bounce_solver) (1 / 2, 1 / 100, 1 / 2)"
  by (simp_all add: bounce_solver_def in_domain_def)












section \<open>Facts about the lattice of a fluid box\<close>

text \<open>
  The lattice dimension is discontinuous where the box side is a multiple of the spacing:
  a side of \<open>0.4\<close> holds four cells of spacing \<open>0.1\<close> and three of any larger spacing
  up to \<open>0.4 / 3\<close>, such as the binary64 number next above \<open>0.1\<close>.
\<close>

lemma lattice_dim_exact: "lattice_dim (4 / 10) (1 / 10) = Inr 4"
  by (simp add: lattice_dim_def py_div_def py_int_def)

lemma lattice_dim_above:
  assumes "1 / 10 < spacing" "spacing \<le> 2 / 15"
  shows "lattice_dim (4 / 10) spacing = Inr 3"
proof -
  have p: "0 < spacing" using assms(1) by simp
  have "3 \<le> 4 / 10 / spacing" "4 / 10 / spacing < 4"
    using assms p by (simp_all add: field_simps)
  then have "\<lfloor>4 / 10 / spacing\<rfloor> = 3" by linarith
  then show ?thesis using p by (simp add: lattice_dim_def py_div_def py_int_def)
qed

text \<open>
  With the binary64 numbers the source computes with, \<open>0.4\<close> read as
  \<open>3602879701896397 / 2^53\<close> and the spacing \<open>0.10000000000000002\<close>, which is
  \<open>7205759403792795 / 2^56\<close>, the quotient is below four.
\<close>

lemma lattice_dim_binary64:
  "lattice_dim (3602879701896397 / 2 ^ 53) (7205759403792795 / 2 ^ 56) = Inr 3"
proof -
  have "\<lfloor>(3602879701896397 / 2 ^ 53 :: real) / (7205759403792795 / 2 ^ 56)\<rfloor> = 3"
    by (simp add: floor_eq_iff)
  then show ?thesis by (simp add: lattice_dim_def py_div_def py_int_def)
qed

section \<open>Properties of the kernels\<close>

text \<open>
  C8. Compact support: for a smoothing length \<open>h > 0\<close> and a displacement \<open>r\<close>
  whose norm exceeds \<open>h\<close>, the Poly6 kernel, the Spiky gradient and the viscosity
  Laplacian return exactly zero (the zero row for the gradient), without raising.
\<close>

theorem kernel_compact_support:
  "0 < h \<Longrightarrow> h < vnorm r \<Longrightarrow>
     poly6 (Vec r) h = Inr 0 \<and> spiky_gradient r h = Inr vzero \<and>
     viscosity_laplacian (Vec r) h = Inr 0"
  by (simp add: poly6_def spiky_gradient_def viscosity_laplacian_def arg_norm_def)

theorem kernel_compact_support_witness:
  "(0::real) < 1 / 2 \<and> 1 / 2 < vnorm (1, 0, 0) \<and>
     poly6 (Vec (1, 0, 0)) (1 / 2) = Inr 0 \<and> spiky_gradient (1, 0, 0) (1 / 2) = Inr vzero \<and>
     viscosity_laplacian (Vec (1, 0, 0)) (1 / 2) = Inr 0"
  using kernel_compact_support [of "1 / 2" "(1, 0, 0)"] by simp

section \<open>Properties of the grid\<close>



section \<open>Properties of the particle store\<close>

text \<open>
  C9. Append contract: if the live count \<open>N\<close> is below the capacity (and the arrays
  have the constructor's rows), \<open>add_particle\<close> returns \<open>N\<close>, stores the particle in
  row \<open>N\<close> with density, pressure and force zero, and increments the count; if \<open>N\<close>
  equals the capacity it raises \<open>RuntimeError\<close> (the capacity error of the source) and
  leaves the whole store, count and arrays, as it was.
\<close>

theorem add_particle_contract:
  "(arrays_ok ps \<and> int (n_particles ps) < max_particles ps \<longrightarrow>
      (\<exists>ps'. add_particle ps pos vel m col visc = (Inr (n_particles ps), ps') \<and>
         n_particles ps' = n_particles ps + 1 \<and>
         positions ps' ! n_particles ps = pos \<and>
         velocities ps' ! n_particles ps = vel \<and>
         masses ps' ! n_particles ps = m \<and>
         colors ps' ! n_particles ps = col \<and>
         viscosities ps' ! n_particles ps = visc \<and>
         densities ps' ! n_particles ps = 0 \<and>
         pressures ps' ! n_particles ps = 0 \<and>
         forces ps' ! n_particles ps = (0, 0, 0))) \<and>
   (int (n_particles ps) = max_particles ps \<longrightarrow>
      add_particle ps pos vel m col visc = (Inl RuntimeError, ps))"
proof (intro conjI impI)
  assume a: "arrays_ok ps \<and> int (n_particles ps) < max_particles ps"
  then have n: "n_particles ps < nat (max_particles ps)" by linarith
  from a n
  show "\<exists>ps'. add_particle ps pos vel m col visc = (Inr (n_particles ps), ps') \<and>
         n_particles ps' = n_particles ps + 1 \<and>
         positions ps' ! n_particles ps = pos \<and>
         velocities ps' ! n_particles ps = vel \<and>
         masses ps' ! n_particles ps = m \<and>
         colors ps' ! n_particles ps = col \<and>
         viscosities ps' ! n_particles ps = visc \<and>
         densities ps' ! n_particles ps = 0 \<and>
         pressures ps' ! n_particles ps = 0 \<and>
         forces ps' ! n_particles ps = (0, 0, 0)"
    by (simp add: add_particle_def arrays_ok_def setitem_def Let_def)
next
  assume "int (n_particles ps) = max_particles ps"
  then show "add_particle ps pos vel m col visc = (Inl RuntimeError, ps)"
    by (simp add: add_particle_def)
qed

theorem add_particle_contract_witness:
  "arrays_ok (store_of 1 0) \<and> int (n_particles (store_of 1 0)) < max_particles (store_of 1 0) \<and>
   fst (add_particle (store_of 1 0) (1, 2, 3) (4, 5, 6) 7 (0, 0, 1) 8) = Inr 0 \<and>
   int (n_particles (store_of 1 1)) = max_particles (store_of 1 1) \<and>
   add_particle (store_of 1 1) (1, 2, 3) (4, 5, 6) 7 (0, 0, 1) 8 = (Inl RuntimeError, store_of 1 1)"
proof -
  have a: "arrays_ok (store_of 1 0)"
    by (simp add: arrays_ok_def store_of_def)
  have c: "int (n_particles (store_of 1 0)) < max_particles (store_of 1 0)"
    and d: "int (n_particles (store_of 1 1)) = max_particles (store_of 1 1)"
    by (simp_all add: store_of_def)
  from add_particle_contract [of "store_of 1 0" "(1, 2, 3)" "(4, 5, 6)" 7 "(0, 0, 1)" 8] a c
  have "fst (add_particle (store_of 1 0) (1, 2, 3) (4, 5, 6) 7 (0, 0, 1) 8) = Inr 0"
    by (auto simp: store_of_def)
  moreover from add_particle_contract [of "store_of 1 1" "(1, 2, 3)" "(4, 5, 6)" 7 "(0, 0, 1)" 8] d
  have "add_particle (store_of 1 1) (1, 2, 3) (4, 5, 6) 7 (0, 0, 1) 8 = (Inl RuntimeError, store_of 1 1)"
    by blast
  ultimately show ?thesis using a c d by simp
qed

section \<open>Properties of the solver\<close>







text \<open>
  C1. Boundary bounce. The scenario of the claim, one call of \<open>step\<close>, does not bounce:
  \<open>0.01 + (-1) * 0.01 = 0\<close> and the wall test \<open>pos[axis] < 0\<close> is strict, so the
  particle comes to rest on the wall with its velocity unchanged.
\<close>

theorem boundary_bounce_counterexample:
  "\<exists>s'. step bounce_solver = Inr s' \<and>
      positions (particles s') ! 0 = (1 / 2, 0, 1 / 2) \<and>
      velocities (particles s') ! 0 = (0, - 1, 0) \<and>
      \<not> (fst (snd (positions (particles s') ! 0)) = 1 / 1000 \<and>
         fst (snd (velocities (particles s') ! 0)) = 1 / 2)"
proof -
  from bounce_scenario_steps[OF bounce_solver_ok bounce_solver_scenario]
  obtain s' where "step bounce_solver = Inr s'"
    "positions (particles s') ! 0 = (1 / 2, 0, 1 / 2)"
    "velocities (particles s') ! 0 = (0, - 1, 0)" by blast
  then show ?thesis by (intro exI[of _ s']) simp
qed

text \<open>
  C1 as amended. For a well-formed solver with no gravity, time step \<open>0.01\<close> and the one
  particle at \<open>(0.5, 0.01, 0.5)\<close>, inside the domain, with velocity \<open>(0, -1, 0)\<close>: after
  one call of \<open>step\<close> the particle has \<open>position_y = 0\<close> and \<open>velocity_y = -1\<close>; after
  the second call it has \<open>position_y = 0.001\<close> and \<open>velocity_y = +0.5\<close>.
\<close>

theorem boundary_bounce:
  assumes "solver_ok s" "n_active s = 1" "gravity s = (0, 0, 0)" "dt s = 1 / 100"
    "positions (particles s) ! 0 = (1 / 2, 1 / 100, 1 / 2)"
    "velocities (particles s) ! 0 = (0, - 1, 0)"
    "in_domain (domain_size s) (1 / 2, 1 / 100, 1 / 2)"
  shows "\<exists>s1 s2. step s = Inr s1 \<and>
           fst (snd (positions (particles s1) ! 0)) = 0 \<and>
           fst (snd (velocities (particles s1) ! 0)) = - 1 \<and>
           step s1 = Inr s2 \<and>
           fst (snd (positions (particles s2) ! 0)) = 1 / 1000 \<and>
           fst (snd (velocities (particles s2) ! 0)) = 1 / 2"
proof -
  from bounce_scenario_steps[OF assms] obtain s1 s2 where
    "step s = Inr s1" "positions (particles s1) ! 0 = (1 / 2, 0, 1 / 2)"
    "velocities (particles s1) ! 0 = (0, - 1, 0)" "step s1 = Inr s2"
    "positions (particles s2) ! 0 = (1 / 2, 1 / 1000, 1 / 2)"
    "velocities (particles s2) ! 0 = (0, 1 / 2, 0)" by blast
  then show ?thesis by (intro exI[of _ s1] exI[of _ s2]) simp
qed

theorem boundary_bounce_witness:
  "solver_ok bounce_solver \<and> n_active bounce_solver = 1 \<and> gravity bounce_solver = (0, 0, 0) \<and>
   dt bounce_solver = 1 / 100 \<and>
   positions (particles bounce_solver) ! 0 = (1 / 2, 1 / 100, 1 / 2) \<and>
   velocities (particles bounce_solver) ! 0 = (0, - 1, 0) \<and>
   in_domain (domain_size bounce_solver) (1 / 2, 1 / 100, 1 / 2) \<and>
   (\<exists>s1 s2. step bounce_solver = Inr s1 \<and>
           fst (snd (positions (particles s1) ! 0)) = 0 \<and>
           fst (snd (velocities (particles s1) ! 0)) = - 1 \<and>
           step s1 = Inr s2 \<and>
           fst (snd (positions (particles s2) ! 0)) = 1 / 1000 \<and>
           fst (snd (velocities (particles s2) ! 0)) = 1 / 2)"
  using boundary_bounce [OF bounce_solver_ok bounce_solver_scenario]
    bounce_solver_ok bounce_solver_scenario by blast




section \<open>Properties of the constructor\<close>

text \<open>
  C2. The constructor does not reject a non-positive smoothing length, time step, particle
  mass or domain extent: it has no test of its arguments.
\<close>

theorem SPHSolver_init_counterexample:
  "\<exists>s. SPHSolver_init (0, - 2, 2) (- 1) (- 1) 1000 2000 (1 / 1000) (0, - (981 / 100), 0) 0 100000 = Inr s \<and>
       domain_size s = (0, - 2, 2) \<and> sph_h s = - 1 \<and> particle_mass s = - 1 \<and> dt s = 0"
  by (simp add: SPHSolver_init_def ParticleSystem_init_def)

text \<open>
  C2 as amended. For every smoothing length, time step, particle mass and domain, positive
  or not, the constructor returns a solver that holds them as given, empty and at time
  zero, whenever the capacity is not negative; the one raise is the \<open>ValueError\<close> of the
  array allocation on a negative capacity.
\<close>

theorem SPHSolver_init_unchecked:
  "(0 \<le> cap \<longrightarrow>
      (\<exists>s. SPHSolver_init dsize h0 m rho0 k mu g dt0 cap = Inr s \<and>
         domain_size s = dsize \<and> sph_h s = h0 \<and> particle_mass s = m \<and> dt s = dt0 \<and>
         max_particles (particles s) = cap \<and> n_active s = 0 \<and> time s = 0 \<and> step_count s = 0)) \<and>
   (cap < 0 \<longrightarrow> SPHSolver_init dsize h0 m rho0 k mu g dt0 cap = Inl ValueError)"
  by (simp add: SPHSolver_init_def ParticleSystem_init_def)

theorem SPHSolver_init_unchecked_witness:
  "(0::int) \<le> 8 \<and>
   (\<exists>s. SPHSolver_init (2, 0, 2) 0 0 1000 2000 (1 / 1000) (0, 0, 0) (- 1) 8 = Inr s \<and>
      domain_size s = (2, 0, 2) \<and> sph_h s = 0 \<and> particle_mass s = 0 \<and> dt s = - 1) \<and>
   (- 1 :: int) < 0 \<and>
   SPHSolver_init (2, 2, 2) (1 / 20) (1 / 50) 1000 2000 (1 / 1000) (0, 0, 0) (1 / 1000) (- 1)
     = Inl ValueError"
proof -
  have a: "(0::int) \<le> 8" and b: "(- 1 :: int) < 0" by simp_all
  from SPHSolver_init_unchecked [of 8 "(2, 0, 2)" 0 0 1000 2000 "1 / 1000" "(0, 0, 0)" "- 1"] a
  have "\<exists>s. SPHSolver_init (2, 0, 2) 0 0 1000 2000 (1 / 1000) (0, 0, 0) (- 1) 8 = Inr s \<and>
      domain_size s = (2, 0, 2) \<and> sph_h s = 0 \<and> particle_mass s = 0 \<and> dt s = - 1"
    by blast
  moreover from SPHSolver_init_unchecked [of "- 1" "(2, 2, 2)" "1 / 20" "1 / 50" 1000 2000
      "1 / 1000" "(0, 0, 0)" "1 / 1000"] b
  have "SPHSolver_init (2, 2, 2) (1 / 20) (1 / 50) 1000 2000 (1 / 1000) (0, 0, 0) (1 / 1000) (- 1)
     = Inl ValueError"
    by blast
  ultimately show ?thesis using a b by blast
qed

end
